theory Spec2Isabelle
  imports Main
begin

section \<open>JavaScript values of the wire envelope\<close>

text \<open>
  The fields of an inbound envelope are whatever \<^verbatim>\<open>JSON.parse\<close> produced. The handlers
  test them with \<^verbatim>\<open>!x\<close> and \<^verbatim>\<open>x || y\<close>, so the model keeps the scalar JavaScript
  values and their truthiness. JSON numbers are represented by integers (every test the
  server makes on a number is \<^verbatim>\<open>!x\<close>, where a fraction behaves like a non-zero
  integer). Field values that are JSON objects or arrays are outside the model: the wire
  protocol has scalar fields only.
\<close>

datatype jsval = JUndefined | JNull | JBool bool | JNum int | JStr string

fun truthy :: "jsval \<Rightarrow> bool" where
  "truthy JUndefined = False"
| "truthy JNull = False"
| "truthy (JBool b) = b"
| "truthy (JNum n) = (n \<noteq> 0)"
| "truthy (JStr s) = (s \<noteq> [])"

text \<open>\<^verbatim>\<open>a || b\<close>\<close>

definition js_or :: "jsval \<Rightarrow> jsval \<Rightarrow> jsval" where
  "js_or a b = (if truthy a then a else b)"

text \<open>
  \<^verbatim>\<open>String.prototype.trim\<close>. A character of the model is a code unit below 256; the
  white space and line terminators of JavaScript in that range are space, tab, line
  feed, vertical tab, form feed, carriage return and the no-break space. Strings with
  code units from 256 on are outside the model.
\<close>

definition isWhiteSpace :: "char \<Rightarrow> bool" where
  "isWhiteSpace c =
     (c \<in> set [CHR '' '', CHR 0x09, CHR 0x0A, CHR 0x0B, CHR 0x0C, CHR 0x0D, CHR 0xA0])"

definition trim :: "string \<Rightarrow> string" where
  "trim s = rev (dropWhile isWhiteSpace (rev (dropWhile isWhiteSpace s)))"

section \<open>The chat server (\<^verbatim>\<open>class ChatServer\<close>)\<close>

subsection \<open>State\<close>

text \<open>A connection object \<^verbatim>\<open>ws\<close> is identified by a number.\<close>

type_synonym ws = nat

datatype ready_state = CONNECTING | OPEN | CLOSING | CLOSED

text \<open>The value of \<^verbatim>\<open>this.clients.get(ws)\<close>: \<^verbatim>\<open>{ username, roomCode, lastSeen }\<close>.\<close>

record client_data =
  cd_username :: jsval
  cd_roomCode :: jsval
  cd_lastSeen :: int

text \<open>The fields the handlers read from a parsed envelope.\<close>

record in_msg =
  m_type :: jsval
  m_roomCode :: jsval
  m_username :: jsval
  m_content :: jsval
  m_id :: jsval
  m_isTyping :: jsval

text \<open>The objects the server passes to \<^verbatim>\<open>send\<close>, one constructor per \<^verbatim>\<open>type\<close>.\<close>

datatype out_msg =
    Connected
  | RoomJoined jsval jsval
  | UserJoined jsval int
  | UserLeft jsval int
  | UserList "jsval list"
  | ChatMessage jsval jsval string int
  | Typing jsval jsval int
  | Pong int
  | ErrorMsg string int

text \<open>
  \<open>rooms\<close> is the \<^verbatim>\<open>Map\<close> from room code to a \<^verbatim>\<open>Set\<close> of connections; a JavaScript
  \<^verbatim>\<open>Set\<close> iterates in insertion order, so it is a list without duplicates.
  \<open>readyState\<close> is the \<^verbatim>\<open>ws.readyState\<close> of every connection and \<open>outbox\<close> the
  sequence of \<^verbatim>\<open>ws.send\<close> calls made so far, oldest first.
\<close>

record server =
  rooms :: "jsval \<rightharpoonup> ws list"
  clients :: "ws \<rightharpoonup> client_data"
  readyState :: "ws \<Rightarrow> ready_state"
  outbox :: "(ws \<times> out_msg) list"

text \<open>
  What one handler invocation reads from outside: the clock (\<^verbatim>\<open>Date.now()\<close>, one
  reading for the whole invocation) and the string \<^verbatim>\<open>generateId()\<close> would return.
\<close>

record env =
  now :: int
  genId :: string

definition initial :: server where
  "initial = \<lparr> rooms = Map.empty, clients = Map.empty,
               readyState = (\<lambda>_. CONNECTING), outbox = [] \<rparr>"

text \<open>\<^verbatim>\<open>Set.prototype.add\<close> and \<^verbatim>\<open>Set.prototype.delete\<close>\<close>

definition set_add :: "ws \<Rightarrow> ws list \<Rightarrow> ws list" where
  "set_add w room = (if w \<in> set room then room else room @ [w])"

definition set_delete :: "ws \<Rightarrow> ws list \<Rightarrow> ws list" where
  "set_delete w room = removeAll w room"

subsection \<open>Sending\<close>

definition send :: "ws \<Rightarrow> out_msg \<Rightarrow> server \<Rightarrow> server" where
  "send w message s =
     (if readyState s w = OPEN then s\<lparr>outbox := outbox s @ [(w, message)]\<rparr> else s)"

definition sendError :: "env \<Rightarrow> ws \<Rightarrow> string \<Rightarrow> server \<Rightarrow> server" where
  "sendError e w errorMessage s = send w (ErrorMsg errorMessage (now e)) s"

text \<open>The body of \<^verbatim>\<open>room.forEach\<close> in \<^verbatim>\<open>broadcastToRoom\<close>, then the loop itself.\<close>

definition broadcastOne :: "out_msg \<Rightarrow> ws option \<Rightarrow> server \<Rightarrow> ws \<Rightarrow> server" where
  "broadcastOne message excludeClient s client =
     (if Some client \<noteq> excludeClient \<and> readyState s client = OPEN
      then send client message s else s)"

definition broadcastToRoom :: "jsval \<Rightarrow> out_msg \<Rightarrow> ws option \<Rightarrow> server \<Rightarrow> server" where
  "broadcastToRoom roomCode message excludeClient s =
     (case rooms s roomCode of
        None \<Rightarrow> s
      | Some room \<Rightarrow> foldl (broadcastOne message excludeClient) s room)"

text \<open>\<^verbatim>\<open>getRoomUsers\<close>: the registered name of every member that has client data.\<close>

fun collectUsers :: "(ws \<rightharpoonup> client_data) \<Rightarrow> ws list \<Rightarrow> jsval list" where
  "collectUsers cl [] = []"
| "collectUsers cl (client # room) =
     (case cl client of
        Some clientData \<Rightarrow> cd_username clientData # collectUsers cl room
      | None \<Rightarrow> collectUsers cl room)"

definition getRoomUsers :: "jsval \<Rightarrow> server \<Rightarrow> jsval list" where
  "getRoomUsers roomCode s =
     (case rooms s roomCode of None \<Rightarrow> [] | Some room \<Rightarrow> collectUsers (clients s) room)"

subsection \<open>Leaving and joining\<close>

definition leaveCurrentRoom :: "env \<Rightarrow> ws \<Rightarrow> server \<Rightarrow> server" where
  "leaveCurrentRoom e w s =
     (case clients s w of
        None \<Rightarrow> s
      | Some client \<Rightarrow>
          (let username = cd_username client; roomCode = cd_roomCode client in
           case rooms s roomCode of
             None \<Rightarrow> s
           | Some room \<Rightarrow>
               (let room' = set_delete w room;
                    s1 = s\<lparr>rooms := (rooms s)(roomCode \<mapsto> room')\<rparr>
                in if length room' = 0
                   then s1\<lparr>rooms := (rooms s1)(roomCode := None)\<rparr>
                   else
                     (let s2 = broadcastToRoom roomCode (UserLeft username (now e)) None s1;
                          roomUsers = getRoomUsers roomCode s2
                      in broadcastToRoom roomCode (UserList roomUsers) None s2))))"

definition handleJoinRoom :: "env \<Rightarrow> ws \<Rightarrow> in_msg \<Rightarrow> server \<Rightarrow> server" where
  "handleJoinRoom e w message s =
     (let roomCode = m_roomCode message; username = m_username message in
      if \<not> truthy roomCode \<or> \<not> truthy username
      then sendError e w ''Room code and username are required'' s
      else
        (let s1 = leaveCurrentRoom e w s;
             s2 = (if rooms s1 roomCode = None
                   then s1\<lparr>rooms := (rooms s1)(roomCode \<mapsto> [])\<rparr> else s1);
             s3 = (case rooms s2 roomCode of
                     None \<Rightarrow> s2
                   | Some room \<Rightarrow> s2\<lparr>rooms := (rooms s2)(roomCode \<mapsto> set_add w room)\<rparr>);
             s4 = s3\<lparr>clients := (clients s3)(w \<mapsto>
                       \<lparr> cd_username = username, cd_roomCode = roomCode,
                         cd_lastSeen = now e \<rparr>)\<rparr>;
             s5 = send w (RoomJoined roomCode username) s4;
             s6 = broadcastToRoom roomCode (UserJoined username (now e)) (Some w) s5;
             roomUsers = getRoomUsers roomCode s6;
             s7 = send w (UserList roomUsers) s6
         in broadcastToRoom roomCode (UserList roomUsers) None s7))"

subsection \<open>Chat, typing, ping\<close>

text \<open>
  \<^verbatim>\<open>content.trim()\<close> on a truthy value that is not a string (a number, \<^verbatim>\<open>true\<close>)
  throws a TypeError, before the handler has changed anything; the exception is the
  \<open>Inl\<close> branch.
\<close>

datatype js_error = TypeError

definition handleChatMessage :: "env \<Rightarrow> ws \<Rightarrow> in_msg \<Rightarrow> server \<Rightarrow> js_error + server" where
  "handleChatMessage e w message s =
     (case clients s w of
        None \<Rightarrow> Inr (sendError e w ''Not in a room'' s)
      | Some client \<Rightarrow>
          (let content = m_content message in
           if \<not> truthy content then Inr (sendError e w ''Message content is required'' s)
           else case content of
             JStr c \<Rightarrow>
               if trim c = [] then Inr (sendError e w ''Message content is required'' s)
               else
                 (let chatMessage =
                        ChatMessage (js_or (m_id message) (JStr (genId e)))
                          (cd_username client) (trim c) (now e)
                  in Inr (broadcastToRoom (cd_roomCode client) chatMessage None s))
           | _ \<Rightarrow> Inl TypeError))"

definition handleTyping :: "env \<Rightarrow> ws \<Rightarrow> in_msg \<Rightarrow> server \<Rightarrow> server" where
  "handleTyping e w message s =
     (case clients s w of
        None \<Rightarrow> s
      | Some client \<Rightarrow>
          (let typingMessage = Typing (cd_username client) (m_isTyping message) (now e)
           in broadcastToRoom (cd_roomCode client) typingMessage (Some w) s))"

definition handlePing :: "env \<Rightarrow> ws \<Rightarrow> in_msg \<Rightarrow> server \<Rightarrow> server" where
  "handlePing e w message s =
     (let s1 = send w (Pong (now e)) s in
      case clients s1 w of
        None \<Rightarrow> s1
      | Some client \<Rightarrow> s1\<lparr>clients := (clients s1)(w \<mapsto> client\<lparr>cd_lastSeen := now e\<rparr>)\<rparr>)"

subsection \<open>Dispatch\<close>

definition handleMessage :: "env \<Rightarrow> ws \<Rightarrow> in_msg \<Rightarrow> server \<Rightarrow> js_error + server" where
  "handleMessage e w message s =
     (if m_type message = JStr ''join_room'' then Inr (handleJoinRoom e w message s)
      else if m_type message = JStr ''chat_message'' then handleChatMessage e w message s
      else if m_type message = JStr ''typing'' then Inr (handleTyping e w message s)
      else if m_type message = JStr ''ping'' then Inr (handlePing e w message s)
      else Inr s)"

text \<open>
  What arrives on the socket, by what \<^verbatim>\<open>JSON.parse(data.toString())\<close> makes of it: a
  syntax error; \<^verbatim>\<open>null\<close> (reading \<^verbatim>\<open>message.type\<close> then throws); another scalar or an
  array (every property read is \<^verbatim>\<open>undefined\<close>); an object.
\<close>

datatype frame = Unparseable | JsonNull | JsonOther | Envelope in_msg

definition noFields :: in_msg where
  "noFields = \<lparr> m_type = JUndefined, m_roomCode = JUndefined, m_username = JUndefined,
                m_content = JUndefined, m_id = JUndefined, m_isTyping = JUndefined \<rparr>"

text \<open>The \<^verbatim>\<open>ws.on('message')\<close> callback of \<^verbatim>\<open>handleConnection\<close>, with its try/catch.\<close>

definition onMessage :: "env \<Rightarrow> ws \<Rightarrow> frame \<Rightarrow> server \<Rightarrow> server" where
  "onMessage e w data s =
     (case data of
        Unparseable \<Rightarrow> sendError e w ''Invalid message format'' s
      | JsonNull \<Rightarrow> sendError e w ''Invalid message format'' s
      | JsonOther \<Rightarrow>
          (case handleMessage e w noFields s of
             Inl err \<Rightarrow> sendError e w ''Invalid message format'' s
           | Inr s' \<Rightarrow> s')
      | Envelope message \<Rightarrow>
          (case handleMessage e w message s of
             Inl err \<Rightarrow> sendError e w ''Invalid message format'' s
           | Inr s' \<Rightarrow> s'))"

definition handleConnection :: "ws \<Rightarrow> server \<Rightarrow> server" where
  "handleConnection w s = send w Connected s"

definition handleDisconnection :: "env \<Rightarrow> ws \<Rightarrow> server \<Rightarrow> server" where
  "handleDisconnection e w s =
     (let s1 = (case clients s w of None \<Rightarrow> s | Some client \<Rightarrow> leaveCurrentRoom e w s)
      in s1\<lparr>clients := (clients s1)(w := None)\<rparr>)"

subsection \<open>The cleanup timer and the event loop\<close>

text \<open>
  \<^verbatim>\<open>ws.terminate()\<close> of the \<^verbatim>\<open>ws\<close> package destroys the socket: the connection is no
  longer open, and its \<^verbatim>\<open>close\<close> event is delivered later by the event loop.
\<close>

definition terminate :: "ready_state \<Rightarrow> ready_state" where
  "terminate r = (if r = CLOSED then CLOSED else CLOSING)"

definition cleanupTick :: "env \<Rightarrow> server \<Rightarrow> server" where
  "cleanupTick e s =
     s\<lparr>readyState := (\<lambda>w. case clients s w of
          None \<Rightarrow> readyState s w
        | Some client \<Rightarrow>
            if now e - cd_lastSeen client > 5 * 60 * 1000
            then terminate (readyState s w) else readyState s w)\<rparr>"

text \<open>
  The events the Node event loop hands to the server: a new connection, a frame, the
  peer or the network starting to close a transport, the \<^verbatim>\<open>close\<close> event, and a tick of
  the cleanup interval.
\<close>

datatype event =
    Connection ws
  | Message ws frame
  | TransportClosing ws
  | Close ws
  | CleanupTimer

fun step :: "env \<Rightarrow> event \<Rightarrow> server \<Rightarrow> server" where
  "step e (Connection w) s = handleConnection w (s\<lparr>readyState := (readyState s)(w := OPEN)\<rparr>)"
| "step e (Message w data) s = onMessage e w data s"
| "step e (TransportClosing w) s = s\<lparr>readyState := (readyState s)(w := CLOSING)\<rparr>"
| "step e (Close w) s = handleDisconnection e w (s\<lparr>readyState := (readyState s)(w := CLOSED)\<rparr>)"
| "step e CleanupTimer s = cleanupTick e s"

inductive reachable :: "server \<Rightarrow> bool" where
  reachable_initial: "reachable initial"
| reachable_step: "reachable s \<Longrightarrow> reachable (step e ev s)"

subsection \<open>Derived notions used in the statements\<close>

text \<open>The members of a room, in insertion order; the empty list when the room does not exist.\<close>

definition membersOf :: "server \<Rightarrow> jsval \<Rightarrow> ws list" where
  "membersOf s roomCode = (case rooms s roomCode of None \<Rightarrow> [] | Some room \<Rightarrow> room)"

text \<open>The members of a room that one \<^verbatim>\<open>broadcastToRoom\<close> call writes to.\<close>

definition recipients :: "ws option \<Rightarrow> server \<Rightarrow> ws list \<Rightarrow> ws list" where
  "recipients excludeClient s room =
     filter (\<lambda>client. Some client \<noteq> excludeClient \<and> readyState s client = OPEN) room"

text \<open>
  The consistency of the two registries between two events: every room in \<open>rooms\<close> is a
  non-empty duplicate-free list of connections whose client data name that room, and
  every connection with client data is a member of the room its data name.
\<close>

definition rooms_ok :: "server \<Rightarrow> bool" where
  "rooms_ok s \<longleftrightarrow>
     (\<forall>c room. rooms s c = Some room \<longrightarrow>
        room \<noteq> [] \<and> distinct room \<and>
        (\<forall>w \<in> set room. \<exists>cd. clients s w = Some cd \<and> cd_roomCode cd = c))"

definition member_ok :: "server \<Rightarrow> ws \<Rightarrow> bool" where
  "member_ok s w \<longleftrightarrow>
     (\<forall>cd. clients s w = Some cd \<longrightarrow>
        (\<exists>room. rooms s (cd_roomCode cd) = Some room \<and> w \<in> set room))"

definition registry_ok :: "server \<Rightarrow> bool" where
  "registry_ok s \<longleftrightarrow> rooms_ok s \<and> (\<forall>w. member_ok s w)"

text \<open>
  The state in the middle of \<^verbatim>\<open>handleJoinRoom\<close> and \<^verbatim>\<open>handleDisconnection\<close>, after
  \<^verbatim>\<open>leaveCurrentRoom(ws)\<close>: \<open>w\<close> is in no room, its client data are stale.
\<close>

definition detached :: "ws \<Rightarrow> server \<Rightarrow> bool" where
  "detached w s \<longleftrightarrow>
     rooms_ok s \<and> (\<forall>w'. w' \<noteq> w \<longrightarrow> member_ok s w') \<and>
     (\<forall>c room. rooms s c = Some room \<longrightarrow> w \<notin> set room)"

section \<open>The client's input validation (\<^verbatim>\<open>js/app.js\<close>)\<close>




text \<open>
  \<^verbatim>\<open>String.prototype.toUpperCase\<close> on code units below 256. The result is a list of
  code units, because it can leave that range and can be longer than the argument: the
  ASCII letters and the accented letters from 224 to 254 (except the division sign, 247)
  move down by 32, the sharp s (223) becomes the two letters SS, the micro sign (181)
  becomes the Greek capital mu (924), the y with diaeresis (255) becomes 376, and every
  other character stays.
\<close>

definition upperCaseUnits :: "char \<Rightarrow> nat list" where
  "upperCaseUnits c =
     (let n = (of_char c :: nat) in
      if 97 \<le> n \<and> n \<le> 122 then [n - 32]
      else if n = 223 then [83, 83]
      else if n = 181 then [924]
      else if n = 255 then [376]
      else if 224 \<le> n \<and> n \<le> 254 \<and> n \<noteq> 247 then [n - 32]
      else [n])"

definition toUpperCase :: "string \<Rightarrow> nat list" where
  "toUpperCase s = concat (map upperCaseUnits s)"

text \<open>\<^verbatim>\<open>/^[A-Z0-9]{6}$/.test(code.toUpperCase())\<close>, after the guard on falsy and non-string values.\<close>

definition validateRoomCode :: "jsval \<Rightarrow> bool" where
  "validateRoomCode code =
     (case code of
        JStr s \<Rightarrow>
          s \<noteq> [] \<and> length (toUpperCase s) = 6 \<and>
          list_all (\<lambda>n. (65 \<le> n \<and> n \<le> 90) \<or> (48 \<le> n \<and> n \<le> 57)) (toUpperCase s)
      | _ \<Rightarrow> False)"


section \<open>The client connection manager (\<^verbatim>\<open>class WebSocketService\<close>)\<close>

text \<open>The frames the service writes to its socket.\<close>

datatype client_frame = JoinRoomFrame jsval jsval | PingFrame

text \<open>
  \<open>socket\<close> is \<^verbatim>\<open>this.socket\<close>: \<open>None\<close> for \<^verbatim>\<open>null\<close>, otherwise the socket's
  \<^verbatim>\<open>readyState\<close>. \<open>joinOnOpen\<close> is the one-shot \<^verbatim>\<open>onOpen\<close> listener that \<^verbatim>\<open>connect\<close>
  registers, with the room code and user name it closes over. \<open>heartbeatInterval\<close> and
  \<open>heartbeatTimeout\<close> say whether the timer handle is set. \<open>reconnectTimers\<close> holds the
  delay (in milliseconds) of every pending \<^verbatim>\<open>setTimeout\<close> of \<^verbatim>\<open>attemptReconnect\<close>;
  \<open>sentFrames\<close> the frames written by \<^verbatim>\<open>socket.send\<close>; \<open>connectionEvents\<close> the
  arguments of \<^verbatim>\<open>notifyConnectionListeners\<close>; \<open>consoleLog\<close> the console lines of the
  modelled methods, without the interpolated values.
\<close>

record client =
  socket :: "ready_state option"
  joinOnOpen :: "(jsval \<times> jsval) option"
  isConnected :: bool
  reconnectAttempts :: nat
  maxReconnectAttempts :: nat
  reconnectDelay :: nat
  heartbeatInterval :: bool
  heartbeatTimeout :: bool
  reconnectTimers :: "nat list"
  sentFrames :: "client_frame list"
  connectionEvents :: "bool list"
  consoleLog :: "string list"

text \<open>The constructor.\<close>

definition newWebSocketService :: client where
  "newWebSocketService =
     \<lparr> socket = None, joinOnOpen = None, isConnected = False, reconnectAttempts = 0,
       maxReconnectAttempts = 5, reconnectDelay = 1000, heartbeatInterval = False,
       heartbeatTimeout = False, reconnectTimers = [], sentFrames = [],
       connectionEvents = [], consoleLog = [] \<rparr>"

definition notifyConnectionListeners :: "bool \<Rightarrow> client \<Rightarrow> client" where
  "notifyConnectionListeners b c = c\<lparr>connectionEvents := connectionEvents c @ [b]\<rparr>"

definition stopHeartbeat :: "client \<Rightarrow> client" where
  "stopHeartbeat c = c\<lparr>heartbeatInterval := False, heartbeatTimeout := False\<rparr>"

definition startHeartbeat :: "client \<Rightarrow> client" where
  "startHeartbeat c = (stopHeartbeat c)\<lparr>heartbeatInterval := True\<rparr>"

definition sendMessage :: "client_frame \<Rightarrow> client \<Rightarrow> client" where
  "sendMessage f c =
     (if socket c \<noteq> Some OPEN
      then c\<lparr>consoleLog := consoleLog c @ [''WebSocket not connected, cannot send message'']\<rparr>
      else c\<lparr>sentFrames := sentFrames c @ [f]\<rparr>)"

definition disconnect :: "client \<Rightarrow> client" where
  "disconnect c =
     (let c1 = (if socket c \<noteq> None
                then (stopHeartbeat c)\<lparr>socket := None, joinOnOpen := None\<rparr> else c)
      in notifyConnectionListeners False (c1\<lparr>isConnected := False, reconnectAttempts := 0\<rparr>))"

text \<open>\<^verbatim>\<open>connect\<close> up to the promise it returns: the new socket and its listeners.\<close>

definition connect :: "jsval \<Rightarrow> jsval \<Rightarrow> client \<Rightarrow> client" where
  "connect roomCode username c =
     (let c1 = (if socket c = Some OPEN then disconnect c else c)
      in c1\<lparr>socket := Some CONNECTING, joinOnOpen := Some (roomCode, username)\<rparr>)"

definition handleOpen :: "client \<Rightarrow> client" where
  "handleOpen c =
     notifyConnectionListeners True
       (startHeartbeat
          (c\<lparr>consoleLog := consoleLog c @ [''WebSocket connected''],
             isConnected := True, reconnectAttempts := 0\<rparr>))"

text \<open>The socket's \<^verbatim>\<open>open\<close> event: \<^verbatim>\<open>handleOpen\<close>, then the \<^verbatim>\<open>onOpen\<close> of \<^verbatim>\<open>connect\<close>.\<close>

definition socketOpen :: "client \<Rightarrow> client" where
  "socketOpen c =
     (let c1 = handleOpen (c\<lparr>socket := Some OPEN\<rparr>) in
      case joinOnOpen c1 of
        None \<Rightarrow> c1
      | Some (roomCode, username) \<Rightarrow>
          sendMessage (JoinRoomFrame roomCode username) (c1\<lparr>joinOnOpen := None\<rparr>))"

definition attemptReconnect :: "client \<Rightarrow> client" where
  "attemptReconnect c =
     (let c1 = c\<lparr>reconnectAttempts := reconnectAttempts c + 1\<rparr>;
          delay = reconnectDelay c1 * 2 ^ (reconnectAttempts c1 - 1)
      in c1\<lparr>consoleLog := consoleLog c1 @ [''Attempting to reconnect''],
            reconnectTimers := reconnectTimers c1 @ [delay]\<rparr>)"

definition handleClose :: "nat \<Rightarrow> client \<Rightarrow> client" where
  "handleClose code c =
     (let c1 = notifyConnectionListeners False
                 (stopHeartbeat
                    (c\<lparr>consoleLog := consoleLog c @ [''WebSocket disconnected''],
                       isConnected := False\<rparr>))
      in if code \<noteq> 1000 \<and> reconnectAttempts c1 < maxReconnectAttempts c1
         then attemptReconnect c1 else c1)"

text \<open>
  The socket's \<^verbatim>\<open>error\<close> event: \<^verbatim>\<open>handleError\<close>, then the \<^verbatim>\<open>onError\<close> of \<^verbatim>\<open>connect\<close>
  if it is still registered, which removes itself and the one-shot \<^verbatim>\<open>onOpen\<close>.
\<close>

definition handleError :: "client \<Rightarrow> client" where
  "handleError c =
     (let c1 = c\<lparr>consoleLog := consoleLog c @ [''WebSocket error'']\<rparr> in
      if \<not> isConnected c1
      then c1\<lparr>consoleLog := consoleLog c1 @
             [''WebSocket connection failed, falling back to simulation mode'']\<rparr>
      else c1)"

definition socketError :: "client \<Rightarrow> client" where
  "socketError c =
     (let c1 = handleError c in
      case joinOnOpen c1 of
        None \<Rightarrow> c1
      | Some (roomCode, username) \<Rightarrow> c1\<lparr>joinOnOpen := None\<rparr>)"

text \<open>The callback of the \<^verbatim>\<open>setTimeout\<close> in \<^verbatim>\<open>attemptReconnect\<close>, when its delay has passed.\<close>

definition reconnectTimerFired :: "client \<Rightarrow> client" where
  "reconnectTimerFired c =
     (case reconnectTimers c of
        [] \<Rightarrow> c
      | delay # pending \<Rightarrow>
          (let c1 = c\<lparr>reconnectTimers := pending\<rparr> in
           if reconnectAttempts c1 \<le> maxReconnectAttempts c1
           then c1\<lparr>consoleLog := consoleLog c1 @ [''Reconnection attempt...'']\<rparr>
           else c1))"

text \<open>
  The heartbeat: the interval's callback, the pong handler, and the timeout's callback,
  whose \<^verbatim>\<open>socket.close()\<close> starts the closing handshake.
\<close>

definition heartbeatTick :: "client \<Rightarrow> client" where
  "heartbeatTick c =
     (if heartbeatInterval c \<and> socket c = Some OPEN
      then (sendMessage PingFrame c)\<lparr>heartbeatTimeout := True\<rparr> else c)"

definition handlePong :: "client \<Rightarrow> client" where
  "handlePong c = c\<lparr>heartbeatTimeout := False\<rparr>"

definition heartbeatTimeoutFired :: "client \<Rightarrow> client" where
  "heartbeatTimeoutFired c =
     (if heartbeatTimeout c
      then c\<lparr>consoleLog := consoleLog c @ [''Heartbeat timeout, closing connection''],
             socket := (case socket c of
                          None \<Rightarrow> None
                        | Some r \<Rightarrow> Some (if r = CLOSED then CLOSED else CLOSING))\<rparr>
      else c)"

text \<open>
  What happens to the service: calls from the chat service and events of the browser.
  The model follows the current socket only: \<^verbatim>\<open>open\<close>, \<^verbatim>\<open>error\<close> and \<^verbatim>\<open>close\<close>
  events are those of \<^verbatim>\<open>this.socket\<close>, and there is none while it is \<^verbatim>\<open>null\<close>.
\<close>

datatype client_event =
    Connect jsval jsval
  | Disconnect
  | SocketOpen
  | SocketError
  | SocketClose nat
  | ReconnectTimer
  | HeartbeatTick
  | PongReceived
  | HeartbeatTimeout

fun client_step :: "client_event \<Rightarrow> client \<Rightarrow> client" where
  "client_step (Connect roomCode username) c = connect roomCode username c"
| "client_step Disconnect c = disconnect c"
| "client_step SocketOpen c = (if socket c = None then c else socketOpen c)"
| "client_step SocketError c = (if socket c = None then c else socketError c)"
| "client_step (SocketClose code) c =
     (if socket c = None then c else handleClose code (c\<lparr>socket := Some CLOSED\<rparr>))"
| "client_step ReconnectTimer c = reconnectTimerFired c"
| "client_step HeartbeatTick c = heartbeatTick c"
| "client_step PongReceived c = handlePong c"
| "client_step HeartbeatTimeout c = heartbeatTimeoutFired c"

inductive client_reachable :: "client \<Rightarrow> bool" where
  client_initial: "client_reachable newWebSocketService"
| client_next: "client_reachable c \<Longrightarrow> client_reachable (client_step ev c)"

section \<open>Envelopes and states used as examples\<close>

text \<open>
  The envelopes the client writes in \<^verbatim>\<open>connect\<close>, \<^verbatim>\<open>sendChatMessage\<close> and
  \<^verbatim>\<open>sendTypingIndicator\<close> (their \<^verbatim>\<open>timestamp\<close> field is read by no handler).
\<close>

definition joinRoomMsg :: "jsval \<Rightarrow> jsval \<Rightarrow> in_msg" where
  "joinRoomMsg roomCode username =
     noFields\<lparr>m_type := JStr ''join_room'', m_roomCode := roomCode, m_username := username\<rparr>"

definition chatMsg :: "jsval \<Rightarrow> jsval \<Rightarrow> jsval \<Rightarrow> jsval \<Rightarrow> in_msg" where
  "chatMsg content roomCode username ident =
     noFields\<lparr>m_type := JStr ''chat_message'', m_content := content, m_roomCode := roomCode,
              m_username := username, m_id := ident\<rparr>"

definition typingMsg :: "jsval \<Rightarrow> jsval \<Rightarrow> jsval \<Rightarrow> in_msg" where
  "typingMsg isTyping roomCode username =
     noFields\<lparr>m_type := JStr ''typing'', m_isTyping := isTyping, m_roomCode := roomCode,
              m_username := username\<rparr>"

text \<open>
  Connections 10 and 30 have been accepted and 10 has joined room AB12CD as Alice; then
  connection 20 is accepted and joins the room as Bob. Connection 30 has joined no room.
\<close>

definition aliceAlone :: server where
  "aliceAlone =
     step \<lparr>now = 2, genId = ''g2''\<rparr>
       (Message 10 (Envelope (joinRoomMsg (JStr ''AB12CD'') (JStr ''Alice''))))
       (step \<lparr>now = 1, genId = ''g1''\<rparr> (Connection 30)
          (step \<lparr>now = 1, genId = ''g1''\<rparr> (Connection 10) initial))"

definition aliceAndBob :: server where
  "aliceAndBob =
     step \<lparr>now = 4, genId = ''g4''\<rparr>
       (Message 20 (Envelope (joinRoomMsg (JStr ''AB12CD'') (JStr ''Bob''))))
       (step \<lparr>now = 3, genId = ''g3''\<rparr> (Connection 20) aliceAlone)"

text \<open>Connection 10 has just been accepted and has joined no room.\<close>

definition justConnected :: server where
  "justConnected = step \<lparr>now = 1, genId = ''g1''\<rparr> (Connection 10) initial"

text \<open>
  The user name an outbound chat or typing message carries, and the part of the outbox
  that was written between two states.
\<close>

fun broadcast_username :: "out_msg \<Rightarrow> jsval option" where
  "broadcast_username (ChatMessage ident username content timestamp) = Some username"
| "broadcast_username (Typing username isTyping timestamp) = Some username"
| "broadcast_username _ = None"

definition appended :: "server \<Rightarrow> server \<Rightarrow> (ws \<times> out_msg) list" where
  "appended s s' = drop (length (outbox s)) (outbox s')"

text \<open>
  A service that connected to room AB12CD as Alice and whose socket opened; and the same
  service after that socket closed abnormally, \<^verbatim>\<open>connect\<close> was called again and the
  new socket reported an error.
\<close>

definition connectedClient :: client where
  "connectedClient =
     client_step SocketOpen
       (client_step (Connect (JStr ''AB12CD'') (JStr ''Alice'')) newWebSocketService)"

definition retryingClient :: client where
  "retryingClient =
     client_step SocketError
       (client_step (Connect (JStr ''AB12CD'') (JStr ''Alice''))
          (client_step (SocketClose 1006) connectedClient))"

section \<open>Helper lemmas: sending and broadcasting\<close>

lemma send_fields [simp]:
  "rooms (send w m s) = rooms s"
  "clients (send w m s) = clients s"
  "readyState (send w m s) = readyState s"
  by (simp_all add: send_def)

lemma send_outbox:
  "outbox (send w m s) = outbox s @ (if readyState s w = OPEN then [(w, m)] else [])"
  by (simp add: send_def)

lemma broadcastOne_eq:
  "broadcastOne m ex s c =
     s\<lparr>outbox := outbox s @ map (\<lambda>c. (c, m)) (recipients ex s [c])\<rparr>"
  by (simp add: broadcastOne_def send_def recipients_def)

lemma foldl_broadcastOne:
  "foldl (broadcastOne m ex) s room =
     s\<lparr>outbox := outbox s @ map (\<lambda>c. (c, m)) (recipients ex s room)\<rparr>"
proof (induction room arbitrary: s)
  case Nil
  show ?case by (simp add: recipients_def)
next
  case (Cons c room)
  have "foldl (broadcastOne m ex) s (c # room) =
        foldl (broadcastOne m ex) (broadcastOne m ex s c) room"
    by simp
  also have "\<dots> =
      (broadcastOne m ex s c)\<lparr>outbox := outbox (broadcastOne m ex s c) @
          map (\<lambda>c. (c, m)) (recipients ex (broadcastOne m ex s c) room)\<rparr>"
    by (rule Cons.IH)
  also have "\<dots> = s\<lparr>outbox := outbox s @ map (\<lambda>c. (c, m)) (recipients ex s (c # room))\<rparr>"
    by (simp add: broadcastOne_eq recipients_def)
  finally show ?case .
qed

lemma broadcastToRoom_eq:
  "broadcastToRoom rc m ex s =
     (case rooms s rc of
        None \<Rightarrow> s
      | Some room \<Rightarrow> s\<lparr>outbox := outbox s @ map (\<lambda>c. (c, m)) (recipients ex s room)\<rparr>)"
  by (simp add: broadcastToRoom_def foldl_broadcastOne split: option.split)

lemma broadcastToRoom_fields [simp]:
  "rooms (broadcastToRoom rc m ex s) = rooms s"
  "clients (broadcastToRoom rc m ex s) = clients s"
  "readyState (broadcastToRoom rc m ex s) = readyState s"
  by (simp_all add: broadcastToRoom_eq split: option.split)

lemma sendError_fields [simp]:
  "rooms (sendError e w m s) = rooms s"
  "clients (sendError e w m s) = clients s"
  "readyState (sendError e w m s) = readyState s"
  by (simp_all add: sendError_def)

lemma leave_clients [simp]: "clients (leaveCurrentRoom e w s) = clients s"
  by (simp add: leaveCurrentRoom_def Let_def split: option.split)

lemma leave_readyState [simp]: "readyState (leaveCurrentRoom e w s) = readyState s"
  by (simp add: leaveCurrentRoom_def Let_def split: option.split)

lemma leave_rooms:
  "rooms (leaveCurrentRoom e w s) =
     (case clients s w of
        None \<Rightarrow> rooms s
      | Some cd \<Rightarrow>
          (case rooms s (cd_roomCode cd) of
             None \<Rightarrow> rooms s
           | Some room \<Rightarrow>
               if removeAll w room = [] then (rooms s)(cd_roomCode cd := None)
               else (rooms s)(cd_roomCode cd \<mapsto> removeAll w room)))"
  by (simp add: leaveCurrentRoom_def Let_def set_delete_def split: option.split)

section \<open>Helper lemmas: the registry invariant\<close>

lemma registry_ok_initial: "registry_ok initial"
  by (simp add: registry_ok_def rooms_ok_def member_ok_def initial_def)

lemma registry_ok_cong:
  "rooms s' = rooms s \<Longrightarrow> clients s' = clients s \<Longrightarrow> registry_ok s' = registry_ok s"
  by (simp add: registry_ok_def rooms_ok_def member_ok_def)

lemma member_room:
  assumes "rooms_ok s" "rooms s c = Some room" "w \<in> set room"
  shows "\<exists>cd. clients s w = Some cd \<and> cd_roomCode cd = c"
  using assms unfolding rooms_ok_def by blast

lemma leave_detached:
  assumes ok: "registry_ok s"
  shows "detached w (leaveCurrentRoom e w s)"
proof (cases "clients s w")
  case None
  have "\<And>c room. rooms s c = Some room \<Longrightarrow> w \<notin> set room"
    using ok None member_room[of s] unfolding registry_ok_def by fastforce
  with ok None show ?thesis
    by (simp add: detached_def registry_ok_def rooms_ok_def member_ok_def leave_rooms)
next
  case (Some cd)
  from ok Some obtain room where room: "rooms s (cd_roomCode cd) = Some room" "w \<in> set room"
    unfolding registry_ok_def member_ok_def by blast
  have rok: "rooms_ok s" and mok: "\<And>w'. member_ok s w'"
    using ok unfolding registry_ok_def by auto
  have only: "\<And>c r. rooms s c = Some r \<Longrightarrow> w \<in> set r \<Longrightarrow> c = cd_roomCode cd"
    using member_room[OF rok] Some by fastforce
  let ?s' = "leaveCurrentRoom e w s"
  have R: "rooms ?s' =
      (if removeAll w room = [] then (rooms s)(cd_roomCode cd := None)
       else (rooms s)(cd_roomCode cd \<mapsto> removeAll w room))"
    by (simp add: leave_rooms Some room)
  have 1: "rooms_ok ?s'"
    unfolding rooms_ok_def
  proof (intro allI impI)
    fix c r assume r: "rooms ?s' c = Some r"
    show "r \<noteq> [] \<and> distinct r \<and> (\<forall>w\<in>set r. \<exists>cd. clients ?s' w = Some cd \<and> cd_roomCode cd = c)"
    proof (cases "c = cd_roomCode cd")
      case True
      with r R have "r = removeAll w room" "removeAll w room \<noteq> []"
        by (auto split: if_splits)
      moreover have "distinct room" "\<forall>w\<in>set room. \<exists>cd'. clients s w = Some cd' \<and> cd_roomCode cd' = c"
        using rok room True unfolding rooms_ok_def by auto
      ultimately show ?thesis by (auto simp: distinct_removeAll)
    next
      case False
      with r R have "rooms s c = Some r" by (auto split: if_splits)
      then show ?thesis using rok unfolding rooms_ok_def by auto
    qed
  qed
  have 2: "member_ok ?s' w'" if "w' \<noteq> w" for w'
    unfolding member_ok_def
  proof (intro allI impI)
    fix cd' assume "clients ?s' w' = Some cd'"
    then have c': "clients s w' = Some cd'" by simp
    then obtain r where r: "rooms s (cd_roomCode cd') = Some r" "w' \<in> set r"
      using mok[of w'] unfolding member_ok_def by blast
    show "\<exists>room. rooms ?s' (cd_roomCode cd') = Some room \<and> w' \<in> set room"
    proof (cases "cd_roomCode cd' = cd_roomCode cd")
      case True
      with r room have "r = room" by simp
      with r that have in': "w' \<in> set (removeAll w room)" by simp
      from length_pos_if_in_set[OF in'] have "removeAll w room \<noteq> []" by fastforce
      with in' show ?thesis using R True by simp
    next
      case False
      then show ?thesis using R r by (auto split: if_splits)
    qed
  qed
  have 3: "w \<notin> set r" if "rooms ?s' c = Some r" for c r
  proof (cases "c = cd_roomCode cd")
    case True
    with that R have "r = removeAll w room" by (auto split: if_splits)
    then show ?thesis by simp
  next
    case False
    with that R have "rooms s c = Some r" by (auto split: if_splits)
    with only False show ?thesis by blast
  qed
  from 1 2 3 show ?thesis unfolding detached_def by blast
qed

lemma join_rejected:
  "\<not> truthy (m_roomCode m) \<or> \<not> truthy (m_username m) \<Longrightarrow>
   handleJoinRoom e w m s = sendError e w ''Room code and username are required'' s"
  by (simp add: handleJoinRoom_def Let_def)

lemma join_rooms:
  "truthy (m_roomCode m) \<Longrightarrow> truthy (m_username m) \<Longrightarrow>
   rooms (handleJoinRoom e w m s) =
     (rooms (leaveCurrentRoom e w s))
       (m_roomCode m \<mapsto> set_add w (membersOf (leaveCurrentRoom e w s) (m_roomCode m)))"
  by (auto simp add: handleJoinRoom_def Let_def membersOf_def split: option.split)

lemma join_clients:
  "truthy (m_roomCode m) \<Longrightarrow> truthy (m_username m) \<Longrightarrow>
   clients (handleJoinRoom e w m s) =
     (clients s)(w \<mapsto> \<lparr> cd_username = m_username m, cd_roomCode = m_roomCode m,
                          cd_lastSeen = now e \<rparr>)"
  by (auto simp add: handleJoinRoom_def Let_def split: option.split)

lemma join_readyState [simp]: "readyState (handleJoinRoom e w m s) = readyState s"
  by (auto simp add: handleJoinRoom_def Let_def split: option.split)

lemma detached_members:
  assumes "detached w s"
  shows "w \<notin> set (membersOf s c) \<and> distinct (membersOf s c) \<and>
    (\<forall>w' \<in> set (membersOf s c). \<exists>cd. clients s w' = Some cd \<and> cd_roomCode cd = c)"
proof (cases "rooms s c")
  case None
  then show ?thesis by (simp add: membersOf_def)
next
  case (Some r)
  then have m: "membersOf s c = r" by (simp add: membersOf_def)
  from assms Some have "w \<notin> set r"
    unfolding detached_def by blast
  moreover from assms Some have "distinct r"
    unfolding detached_def rooms_ok_def by blast
  moreover from assms Some have "\<forall>w' \<in> set r. \<exists>cd. clients s w' = Some cd \<and> cd_roomCode cd = c"
    unfolding detached_def rooms_ok_def by blast
  ultimately show ?thesis unfolding m by blast
qed

lemma attach_ok:
  assumes d: "detached w s1"
    and R: "rooms s' = (rooms s1)(rc \<mapsto> set_add w (membersOf s1 rc))"
    and C: "clients s' = (clients s1)(w \<mapsto> cd)"
    and rc: "cd_roomCode cd = rc"
  shows "registry_ok s'"
proof -
  have notin: "w \<notin> set (membersOf s1 rc)" and dist: "distinct (membersOf s1 rc)"
    and mem: "\<forall>w' \<in> set (membersOf s1 rc). \<exists>cd. clients s1 w' = Some cd \<and> cd_roomCode cd = rc"
    using detached_members[OF d] by auto
  have add: "set_add w (membersOf s1 rc) = membersOf s1 rc @ [w]"
    using notin by (simp add: set_add_def)
  have rok1: "rooms_ok s1" and mok1: "\<And>w'. w' \<noteq> w \<Longrightarrow> member_ok s1 w'"
    and free: "\<And>c r. rooms s1 c = Some r \<Longrightarrow> w \<notin> set r"
    using d unfolding detached_def by auto
  have 1: "rooms_ok s'"
    unfolding rooms_ok_def
  proof (intro allI impI)
    fix c r assume r: "rooms s' c = Some r"
    show "r \<noteq> [] \<and> distinct r \<and> (\<forall>x\<in>set r. \<exists>cd. clients s' x = Some cd \<and> cd_roomCode cd = c)"
    proof (cases "c = rc")
      case True
      with r R add have "r = membersOf s1 rc @ [w]" by simp
      then show ?thesis using notin dist mem C rc True by auto
    next
      case False
      with r R have r1: "rooms s1 c = Some r" by simp
      then have "w \<notin> set r" using free by blast
      then show ?thesis using rok1 r1 C unfolding rooms_ok_def by fastforce
    qed
  qed
  have 2: "member_ok s' x" for x
  proof (cases "x = w")
    case True
    then show ?thesis using R C rc add by (simp add: member_ok_def)
  next
    case False
    show ?thesis
      unfolding member_ok_def
    proof (intro allI impI)
      fix cd' assume "clients s' x = Some cd'"
      with C False have "clients s1 x = Some cd'" by simp
      then obtain r where r: "rooms s1 (cd_roomCode cd') = Some r" "x \<in> set r"
        using mok1[OF False] unfolding member_ok_def by blast
      show "\<exists>room. rooms s' (cd_roomCode cd') = Some room \<and> x \<in> set room"
      proof (cases "cd_roomCode cd' = rc")
        case True
        with r have "membersOf s1 rc = r" by (simp add: membersOf_def)
        then show ?thesis using R True add r by simp
      next
        case False
        then show ?thesis using R r by simp
      qed
    qed
  qed
  from 1 2 show ?thesis unfolding registry_ok_def by blast
qed

lemma join_ok:
  assumes "registry_ok s"
  shows "registry_ok (handleJoinRoom e w m s)"
proof (cases "truthy (m_roomCode m) \<and> truthy (m_username m)")
  case False
  then have "handleJoinRoom e w m s = sendError e w ''Room code and username are required'' s"
    using join_rejected by blast
  then show ?thesis using assms registry_ok_cong[of "sendError e w ''Room code and username are required'' s" s]
    by simp
next
  case True
  show ?thesis
  proof (rule attach_ok[OF leave_detached[OF assms, of w e]])
    show "rooms (handleJoinRoom e w m s) =
        (rooms (leaveCurrentRoom e w s))
          (m_roomCode m \<mapsto> set_add w (membersOf (leaveCurrentRoom e w s) (m_roomCode m)))"
      using True by (simp add: join_rooms)
    show "clients (handleJoinRoom e w m s) =
        (clients (leaveCurrentRoom e w s))(w \<mapsto> \<lparr> cd_username = m_username m,
            cd_roomCode = m_roomCode m, cd_lastSeen = now e \<rparr>)"
      using True by (simp add: join_clients)
    show "cd_roomCode \<lparr> cd_username = m_username m, cd_roomCode = m_roomCode m,
            cd_lastSeen = now e \<rparr> = m_roomCode m"
      by simp
  qed
qed

lemma handleDisconnection_eq:
  "handleDisconnection e w s =
     (leaveCurrentRoom e w s)\<lparr>clients := (clients s)(w := None)\<rparr>"
proof (cases "clients s w")
  case None
  then show ?thesis by (simp add: handleDisconnection_def leaveCurrentRoom_def)
next
  case (Some cd)
  then show ?thesis by (simp add: handleDisconnection_def)
qed

lemma disconnect_fields [simp]:
  "rooms (handleDisconnection e w s) = rooms (leaveCurrentRoom e w s)"
  "clients (handleDisconnection e w s) = (clients s)(w := None)"
  "readyState (handleDisconnection e w s) = readyState s"
  by (simp_all add: handleDisconnection_eq)

lemma disconnect_ok:
  assumes "registry_ok s"
  shows "registry_ok (handleDisconnection e w s)"
proof -
  let ?s1 = "leaveCurrentRoom e w s" and ?s' = "handleDisconnection e w s"
  have d: "detached w ?s1" by (rule leave_detached[OF assms])
  then have rok1: "rooms_ok ?s1" and mok1: "\<And>w'. w' \<noteq> w \<Longrightarrow> member_ok ?s1 w'"
    and free: "\<And>c r. rooms ?s1 c = Some r \<Longrightarrow> w \<notin> set r"
    unfolding detached_def by auto
  have "rooms_ok ?s'"
    unfolding rooms_ok_def
  proof (intro allI impI)
    fix c r assume "rooms ?s' c = Some r"
    then have r: "rooms ?s1 c = Some r" by simp
    then have "w \<notin> set r" using free by blast
    then show "r \<noteq> [] \<and> distinct r \<and> (\<forall>x\<in>set r. \<exists>cd. clients ?s' x = Some cd \<and> cd_roomCode cd = c)"
      using rok1 r unfolding rooms_ok_def by fastforce
  qed
  moreover have "member_ok ?s' x" for x
  proof (cases "x = w")
    case True
    then show ?thesis by (simp add: member_ok_def)
  next
    case False
    then show ?thesis using mok1[OF False] by (simp add: member_ok_def)
  qed
  ultimately show ?thesis unfolding registry_ok_def by blast
qed

lemma chat_fields:
  assumes "handleChatMessage e w m s = Inr s'"
  shows "rooms s' = rooms s \<and> clients s' = clients s \<and> readyState s' = readyState s"
  using assms
  by (auto simp add: handleChatMessage_def Let_def split: option.splits if_splits jsval.splits)

lemma typing_fields [simp]:
  "rooms (handleTyping e w m s) = rooms s"
  "clients (handleTyping e w m s) = clients s"
  "readyState (handleTyping e w m s) = readyState s"
  by (simp_all add: handleTyping_def Let_def split: option.split)

lemma ping_rooms [simp]: "rooms (handlePing e w m s) = rooms s"
  by (simp add: handlePing_def Let_def split: option.split)

lemma ping_readyState [simp]: "readyState (handlePing e w m s) = readyState s"
  by (simp add: handlePing_def Let_def split: option.split)

lemma ping_clients:
  "clients (handlePing e w m s) =
     (case clients s w of
        None \<Rightarrow> clients s
      | Some cd \<Rightarrow> (clients s)(w \<mapsto> cd\<lparr>cd_lastSeen := now e\<rparr>))"
  by (simp add: handlePing_def Let_def split: option.split)

lemma ping_ok:
  assumes "registry_ok s"
  shows "registry_ok (handlePing e w m s)"
proof (cases "clients s w")
  case None
  then have "clients (handlePing e w m s) = clients s" by (simp add: ping_clients)
  then show ?thesis using assms registry_ok_cong[of "handlePing e w m s" s] by simp
next
  case (Some cd)
  let ?s' = "handlePing e w m s"
  have C: "clients ?s' = (clients s)(w \<mapsto> cd\<lparr>cd_lastSeen := now e\<rparr>)"
    using Some by (simp add: ping_clients)
  have fwd: "\<exists>cd'. clients ?s' x = Some cd' \<and> cd_roomCode cd' = c"
    if "clients s x = Some cd0" "cd_roomCode cd0 = c" for x cd0 c
    using that Some C by (cases "x = w") auto
  have bwd: "\<exists>cd0. clients s x = Some cd0 \<and> cd_roomCode cd0 = cd_roomCode cd'"
    if "clients ?s' x = Some cd'" for x cd'
    using that Some C by (cases "x = w") auto
  have rok: "rooms_ok s" and mok: "\<And>x. member_ok s x"
    using assms unfolding registry_ok_def by auto
  have "rooms_ok ?s'"
    unfolding rooms_ok_def
  proof (intro allI impI)
    fix c r assume "rooms ?s' c = Some r"
    then have r: "rooms s c = Some r" by simp
    then have "r \<noteq> []" "distinct r"
      "\<forall>x\<in>set r. \<exists>cd. clients s x = Some cd \<and> cd_roomCode cd = c"
      using rok unfolding rooms_ok_def by auto
    then show "r \<noteq> [] \<and> distinct r \<and> (\<forall>x\<in>set r. \<exists>cd. clients ?s' x = Some cd \<and> cd_roomCode cd = c)"
      using fwd by blast
  qed
  moreover have "member_ok ?s' x" for x
    unfolding member_ok_def
  proof (intro allI impI)
    fix cd' assume "clients ?s' x = Some cd'"
    from bwd[OF this] obtain cd0 where "clients s x = Some cd0" "cd_roomCode cd0 = cd_roomCode cd'"
      by blast
    then show "\<exists>room. rooms ?s' (cd_roomCode cd') = Some room \<and> x \<in> set room"
      using mok[of x] unfolding member_ok_def by auto
  qed
  ultimately show ?thesis unfolding registry_ok_def by blast
qed

lemma handleMessage_ok:
  assumes "registry_ok s" "handleMessage e w m s = Inr s'"
  shows "registry_ok s'"
proof -
  consider (join) "m_type m = JStr ''join_room''"
    | (chat) "m_type m = JStr ''chat_message''"
    | (typing) "m_type m = JStr ''typing''"
    | (ping) "m_type m = JStr ''ping''"
    | (other) "m_type m \<noteq> JStr ''join_room''" "m_type m \<noteq> JStr ''chat_message''"
        "m_type m \<noteq> JStr ''typing''" "m_type m \<noteq> JStr ''ping''"
    by blast
  then show ?thesis
  proof cases
    case join
    with assms(2) have "s' = handleJoinRoom e w m s" by (simp add: handleMessage_def)
    then show ?thesis using join_ok[OF assms(1)] by simp
  next
    case chat
    with assms(2) have "handleChatMessage e w m s = Inr s'" by (simp add: handleMessage_def)
    from chat_fields[OF this] show ?thesis
      using assms(1) registry_ok_cong[of s' s] by simp
  next
    case typing
    with assms(2) have "s' = handleTyping e w m s" by (simp add: handleMessage_def)
    then show ?thesis using assms(1) registry_ok_cong[of s' s] by simp
  next
    case ping
    with assms(2) have "s' = handlePing e w m s" by (simp add: handleMessage_def)
    then show ?thesis using ping_ok[OF assms(1)] by simp
  next
    case other
    with assms(2) have "s' = s" by (simp add: handleMessage_def)
    then show ?thesis using assms(1) by simp
  qed
qed

lemma onMessage_ok:
  assumes "registry_ok s"
  shows "registry_ok (onMessage e w d s)"
proof -
  have err: "registry_ok (sendError e w ''Invalid message format'' s)"
    using assms registry_ok_cong[of "sendError e w ''Invalid message format'' s" s] by simp
  have env: "registry_ok (case handleMessage e w m s of
             Inl err \<Rightarrow> sendError e w ''Invalid message format'' s
           | Inr s' \<Rightarrow> s')" for m
    using err handleMessage_ok[OF assms] by (cases "handleMessage e w m s") auto
  show ?thesis
    using err env by (cases d) (simp_all add: onMessage_def)
qed

lemma step_ok:
  assumes "registry_ok s"
  shows "registry_ok (step e ev s)"
proof (cases ev)
  case (Connection w)
  have "registry_ok (s\<lparr>readyState := (readyState s)(w := OPEN)\<rparr>)"
    using assms registry_ok_cong[of "s\<lparr>readyState := (readyState s)(w := OPEN)\<rparr>" s] by simp
  then show ?thesis
    using Connection
      registry_ok_cong[of "handleConnection w (s\<lparr>readyState := (readyState s)(w := OPEN)\<rparr>)"
        "s\<lparr>readyState := (readyState s)(w := OPEN)\<rparr>"]
    by (simp add: handleConnection_def)
next
  case (Message w d)
  then show ?thesis using onMessage_ok[OF assms] by simp
next
  case (TransportClosing w)
  then show ?thesis
    using assms registry_ok_cong[of "s\<lparr>readyState := (readyState s)(w := CLOSING)\<rparr>" s] by simp
next
  case (Close w)
  have "registry_ok (s\<lparr>readyState := (readyState s)(w := CLOSED)\<rparr>)"
    using assms registry_ok_cong[of "s\<lparr>readyState := (readyState s)(w := CLOSED)\<rparr>" s] by simp
  then show ?thesis using Close disconnect_ok by simp
next
  case CleanupTimer
  then show ?thesis
    using assms registry_ok_cong[of "cleanupTick e s" s] by (simp add: cleanupTick_def)
qed

lemma reachable_ok: "reachable s \<Longrightarrow> registry_ok s"
  by (induction rule: reachable.induct) (simp_all add: registry_ok_initial step_ok)

section \<open>Helper lemmas: joining, leaving, examples\<close>


lemma joined_member:
  assumes "reachable s" "clients s w = Some cd"
  shows "\<exists>room. rooms s (cd_roomCode cd) = Some room \<and> w \<in> set room \<and> distinct room"
proof -
  from reachable_ok[OF assms(1)] have rok: "rooms_ok s" and mok: "member_ok s w"
    unfolding registry_ok_def by auto
  from mok assms(2) obtain room where r: "rooms s (cd_roomCode cd) = Some room" "w \<in> set room"
    unfolding member_ok_def by blast
  with rok have "distinct room" unfolding rooms_ok_def by blast
  with r show ?thesis by blast
qed











lemma join_step:
  "m_type m = JStr ''join_room'' \<Longrightarrow>
   onMessage e w (Envelope m) s = handleJoinRoom e w m s"
  by (simp add: onMessage_def handleMessage_def)

lemmas server_defs = initial_def handleConnection_def onMessage_def handleMessage_def
  handleJoinRoom_def leaveCurrentRoom_def broadcastToRoom_def broadcastOne_def send_def
  sendError_def getRoomUsers_def set_add_def set_delete_def joinRoomMsg_def noFields_def
  handleDisconnection_def Let_def

lemma ab_rooms: "rooms aliceAndBob = [JStr ''AB12CD'' \<mapsto> [10, 20]]"
  by (simp add: aliceAndBob_def aliceAlone_def server_defs)

lemma ab_clients1: "clients aliceAndBob 10 = Some \<lparr>cd_username = JStr ''Alice'', cd_roomCode = JStr ''AB12CD'', cd_lastSeen = 2\<rparr>"
  by (simp add: aliceAndBob_def aliceAlone_def server_defs)

lemma ab_ready: "readyState aliceAndBob = (\<lambda>_. CONNECTING)(10 := OPEN, 30 := OPEN, 20 := OPEN)"
  by (simp add: aliceAndBob_def aliceAlone_def server_defs)

lemma ab_reachable: "reachable aliceAndBob"
  unfolding aliceAndBob_def aliceAlone_def by (intro reachable_step reachable_initial)



lemma validateRoomCode_sharp_s: "validateRoomCode (JStr (''ABCD'' @ [CHR 0xDF]))"
  by (simp add: validateRoomCode_def toUpperCase_def upperCaseUnits_def)


section \<open>Helper lemmas: errors, user names, the client\<close>

lemma jc_reachable: "reachable justConnected"
  unfolding justConnected_def by (intro reachable_step reachable_initial)

lemma sendError_eq:
  "sendError e w t s =
     s\<lparr>outbox := outbox s @ (if readyState s w = OPEN then [(w, ErrorMsg t (now e))] else [])\<rparr>"
  by (simp add: sendError_def send_def)

lemma appended_sendError:
  "appended s (sendError e w t s) = (if readyState s w = OPEN then [(w, ErrorMsg t (now e))] else [])"
  by (simp add: appended_def sendError_eq)

lemma appended_broadcast:
  "appended s (broadcastToRoom rc msg ex s) = map (\<lambda>c. (c, msg)) (recipients ex s (membersOf s rc))"
  by (simp add: appended_def broadcastToRoom_eq membersOf_def recipients_def split: option.split)

lemma chat_ignores_username:
  "handleChatMessage e w (m\<lparr>m_username := u\<rparr>) s = handleChatMessage e w m s"
  by (simp add: handleChatMessage_def Let_def split: option.split jsval.split)

lemma typing_ignores_username:
  "handleTyping e w (m\<lparr>m_username := u\<rparr>) s = handleTyping e w m s"
  by (simp add: handleTyping_def Let_def split: option.split)

lemma chat_appended_names:
  assumes "clients s w = Some cd" "m_type m = JStr ''chat_message''"
    and "x \<in> set (appended s (onMessage e w (Envelope m) s))"
  shows "broadcast_username (snd x) = None \<or> broadcast_username (snd x) = Some (cd_username cd)"
proof (cases "handleChatMessage e w m s")
  case (Inl err)
  then have "onMessage e w (Envelope m) s = sendError e w ''Invalid message format'' s"
    using assms(2) by (simp add: onMessage_def handleMessage_def)
  with assms(3) show ?thesis by (auto simp add: appended_sendError split: if_splits)
next
  case (Inr s')
  then have s': "onMessage e w (Envelope m) s = s'"
    using assms(2) by (simp add: onMessage_def handleMessage_def)
  from Inr assms(1) consider
      (err) "s' = sendError e w ''Message content is required'' s"
    | (ok) c where "s' = broadcastToRoom (cd_roomCode cd)
          (ChatMessage (js_or (m_id m) (JStr (genId e))) (cd_username cd) (trim c) (now e)) None s"
    by (auto simp add: handleChatMessage_def Let_def split: if_splits jsval.splits)
  then show ?thesis
  proof cases
    case err
    with assms(3) s' show ?thesis by (auto simp add: appended_sendError split: if_splits)
  next
    case ok
    with assms(3) s' show ?thesis by (auto simp add: appended_broadcast)
  qed
qed

lemma typing_appended_names:
  assumes "clients s w = Some cd" "m_type m = JStr ''typing''"
    and "x \<in> set (appended s (onMessage e w (Envelope m) s))"
  shows "broadcast_username (snd x) = None \<or> broadcast_username (snd x) = Some (cd_username cd)"
proof -
  have "onMessage e w (Envelope m) s =
      broadcastToRoom (cd_roomCode cd) (Typing (cd_username cd) (m_isTyping m) (now e)) (Some w) s"
    using assms(1,2) by (simp add: onMessage_def handleMessage_def handleTyping_def)
  with assms(3) show ?thesis by (auto simp add: appended_broadcast)
qed

lemmas client_defs = newWebSocketService_def connect_def disconnect_def socketOpen_def
  handleError_def socketError_def
  handleOpen_def handleClose_def attemptReconnect_def reconnectTimerFired_def
  notifyConnectionListeners_def stopHeartbeat_def startHeartbeat_def sendMessage_def
  heartbeatTick_def handlePong_def heartbeatTimeoutFired_def Let_def

lemma client_step_constants:
  "reconnectDelay (client_step ev c) = reconnectDelay c \<and>
   maxReconnectAttempts (client_step ev c) = maxReconnectAttempts c"
  by (cases ev) (simp_all add: client_defs split: option.split list.split prod.split)

lemma client_reachable_constants:
  "client_reachable c \<Longrightarrow> reconnectDelay c = 1000 \<and> maxReconnectAttempts c = 5"
  by (induction rule: client_reachable.induct)
     (simp_all add: client_step_constants newWebSocketService_def)

lemma handleClose_retry:
  assumes "code \<noteq> 1000" "reconnectAttempts c < maxReconnectAttempts c"
  shows "reconnectTimers (handleClose code c) =
           reconnectTimers c @ [reconnectDelay c * 2 ^ reconnectAttempts c] \<and>
         reconnectAttempts (handleClose code c) = reconnectAttempts c + 1"
  using assms by (simp add: client_defs)

lemma rc_reachable: "client_reachable retryingClient"
  unfolding retryingClient_def connectedClient_def
  by (intro client_next client_initial)

section \<open>Claims about the server\<close>



text \<open>
  C6. Typing broadcast. In every reachable state, a \<^verbatim>\<open>typing\<close> envelope from a
  connection \<open>w\<close> that has joined a room is written once to every member of its room
  that is open and is not \<open>w\<close>; nothing is written to \<open>w\<close>, and nothing else changes.
\<close>

theorem typing_broadcast:
  assumes "reachable s" and "clients s w = Some cd"
    and "m_type m = JStr ''typing''"
  shows "\<exists>room. rooms s (cd_roomCode cd) = Some room \<and> w \<in> set room \<and> distinct room \<and>
     step e (Message w (Envelope m)) s =
       s\<lparr>outbox := outbox s @
           map (\<lambda>r. (r, Typing (cd_username cd) (m_isTyping m) (now e)))
               (filter (\<lambda>r. r \<noteq> w \<and> readyState s r = OPEN) room)\<rparr>"
proof -
  from joined_member[OF assms(1,2)] obtain room
    where room: "rooms s (cd_roomCode cd) = Some room" "w \<in> set room" "distinct room"
    by blast
  have "step e (Message w (Envelope m)) s =
      broadcastToRoom (cd_roomCode cd) (Typing (cd_username cd) (m_isTyping m) (now e)) (Some w) s"
    using assms(2,3) by (simp add: onMessage_def handleMessage_def handleTyping_def)
  also have "\<dots> = s\<lparr>outbox := outbox s @
           map (\<lambda>r. (r, Typing (cd_username cd) (m_isTyping m) (now e)))
               (filter (\<lambda>r. r \<noteq> w \<and> readyState s r = OPEN) room)\<rparr>"
    using room(1) by (simp add: broadcastToRoom_eq recipients_def)
  finally show ?thesis using room by blast
qed

theorem typing_broadcast_witness:
  "reachable aliceAndBob \<and>
   clients aliceAndBob 10 =
     Some \<lparr>cd_username = JStr ''Alice'', cd_roomCode = JStr ''AB12CD'', cd_lastSeen = 2\<rparr> \<and>
   m_type (typingMsg (JBool True) (JStr ''AB12CD'') (JStr ''Alice'')) = JStr ''typing'' \<and>
   outbox (step \<lparr>now = 5, genId = ''g5''\<rparr>
       (Message 10 (Envelope (typingMsg (JBool True) (JStr ''AB12CD'') (JStr ''Alice''))))
       aliceAndBob) =
     outbox aliceAndBob @ [(20, Typing (JStr ''Alice'') (JBool True) 5)]"
proof -
  let ?m = "typingMsg (JBool True) (JStr ''AB12CD'') (JStr ''Alice'')"
  have h3: "m_type ?m = JStr ''typing''" by (simp add: typingMsg_def)
  have i: "m_isTyping ?m = JBool True" by (simp add: typingMsg_def)
  from typing_broadcast[OF ab_reachable ab_clients1 h3, of "\<lparr>now = 5, genId = ''g5''\<rparr>"]
  have "outbox (step \<lparr>now = 5, genId = ''g5''\<rparr> (Message 10 (Envelope ?m)) aliceAndBob) =
     outbox aliceAndBob @ [(20, Typing (JStr ''Alice'') (JBool True) 5)]"
    by (auto simp add: ab_rooms ab_ready i)
  with ab_reachable ab_clients1 h3 show ?thesis by blast
qed











text \<open>
  C7. Malformed input. The claim asks for an error notice to the originator both for
  invalid JSON and for an unknown \<^verbatim>\<open>type\<close>. The \<^verbatim>\<open>default\<close> branch of \<^verbatim>\<open>handleMessage\<close>
  only logs: an open connection that sends an envelope of unknown type gets nothing.
\<close>

theorem malformed_message_counterexample:
  "readyState justConnected 10 = OPEN \<and>
   step \<lparr>now = 2, genId = ''g2''\<rparr>
     (Message 10 (Envelope (noFields\<lparr>m_type := JStr ''dance''\<rparr>))) justConnected = justConnected"
  by (simp add: justConnected_def server_defs)

text \<open>
  C7, amended. A frame that is not valid JSON, or is the JSON value \<^verbatim>\<open>null\<close>, makes the
  server send one error notice to the originating connection, if its transport is open,
  and nothing to anyone else; rooms, clients and transports are unchanged. A well-formed
  envelope with an unknown type (or a JSON scalar or array) changes nothing and sends
  nothing, to the originator or anyone else.
\<close>

theorem malformed_message_handling:
  "step e (Message w Unparseable) s =
     s\<lparr>outbox := outbox s @
         (if readyState s w = OPEN then [(w, ErrorMsg ''Invalid message format'' (now e))] else [])\<rparr> \<and>
   step e (Message w JsonNull) s =
     s\<lparr>outbox := outbox s @
         (if readyState s w = OPEN then [(w, ErrorMsg ''Invalid message format'' (now e))] else [])\<rparr> \<and>
   step e (Message w JsonOther) s = s \<and>
   (m_type m \<noteq> JStr ''join_room'' \<and> m_type m \<noteq> JStr ''chat_message'' \<and>
    m_type m \<noteq> JStr ''typing'' \<and> m_type m \<noteq> JStr ''ping'' \<longrightarrow>
      step e (Message w (Envelope m)) s = s)"
  by (simp add: onMessage_def handleMessage_def sendError_eq noFields_def)

theorem malformed_message_handling_witness:
  "step \<lparr>now = 2, genId = ''g2''\<rparr> (Message 10 Unparseable) aliceAndBob =
     aliceAndBob\<lparr>outbox := outbox aliceAndBob @ [(10, ErrorMsg ''Invalid message format'' 2)]\<rparr> \<and>
   m_type (noFields\<lparr>m_type := JStr ''dance''\<rparr>) \<noteq> JStr ''join_room'' \<and>
   m_type (noFields\<lparr>m_type := JStr ''dance''\<rparr>) \<noteq> JStr ''chat_message'' \<and>
   m_type (noFields\<lparr>m_type := JStr ''dance''\<rparr>) \<noteq> JStr ''typing'' \<and>
   m_type (noFields\<lparr>m_type := JStr ''dance''\<rparr>) \<noteq> JStr ''ping'' \<and>
   step \<lparr>now = 2, genId = ''g2''\<rparr>
     (Message 10 (Envelope (noFields\<lparr>m_type := JStr ''dance''\<rparr>))) aliceAndBob = aliceAndBob"
  using malformed_message_handling[of "\<lparr>now = 2, genId = ''g2''\<rparr>" 10 aliceAndBob
      "noFields\<lparr>m_type := JStr ''dance''\<rparr>"]
  by (simp add: ab_ready noFields_def)

text \<open>
  C10. No impersonation. For a chat or typing envelope, replacing its \<^verbatim>\<open>username\<close> field
  by any other value gives the same resulting server state, so the same broadcasts.
  Every chat or typing message the step writes carries the user name in the sender's
  client data, and an accepted join is what sets that name.
\<close>

theorem registered_username_in_broadcasts:
  assumes "m_type m = JStr ''chat_message'' \<or> m_type m = JStr ''typing''"
  shows "step e (Message w (Envelope (m\<lparr>m_username := u\<rparr>))) s = step e (Message w (Envelope m)) s \<and>
     (\<forall>cd. clients s w = Some cd \<longrightarrow>
        (\<forall>x \<in> set (appended s (step e (Message w (Envelope m)) s)).
           broadcast_username (snd x) = None \<or>
           broadcast_username (snd x) = Some (cd_username cd))) \<and>
     (\<forall>j. m_type j = JStr ''join_room'' \<and> truthy (m_roomCode j) \<and> truthy (m_username j) \<longrightarrow>
        map_option cd_username (clients (step e (Message w (Envelope j)) s) w) =
          Some (m_username j))"
proof (intro conjI allI impI ballI)
  show "step e (Message w (Envelope (m\<lparr>m_username := u\<rparr>))) s = step e (Message w (Envelope m)) s"
    using assms
    by (auto simp add: onMessage_def handleMessage_def chat_ignores_username
        typing_ignores_username)
next
  fix cd x
  assume "clients s w = Some cd" "x \<in> set (appended s (step e (Message w (Envelope m)) s))"
  then show "broadcast_username (snd x) = None \<or> broadcast_username (snd x) = Some (cd_username cd)"
    using assms chat_appended_names[of s w cd m x e] typing_appended_names[of s w cd m x e]
    by auto
next
  fix j :: in_msg
  assume "m_type j = JStr ''join_room'' \<and> truthy (m_roomCode j) \<and> truthy (m_username j)"
  then show "map_option cd_username (clients (step e (Message w (Envelope j)) s) w) =
          Some (m_username j)"
    by (simp add: join_step join_clients)
qed

theorem registered_username_in_broadcasts_witness:
  "(m_type (chatMsg (JStr ''hello'') (JStr ''AB12CD'') (JStr ''Alice'') (JStr ''m1''))
      = JStr ''chat_message'' \<or>
    m_type (chatMsg (JStr ''hello'') (JStr ''AB12CD'') (JStr ''Alice'') (JStr ''m1''))
      = JStr ''typing'') \<and>
   step \<lparr>now = 5, genId = ''g5''\<rparr>
     (Message 10 (Envelope (chatMsg (JStr ''hello'') (JStr ''AB12CD'') (JStr ''Bob'') (JStr ''m1''))))
     aliceAndBob =
   step \<lparr>now = 5, genId = ''g5''\<rparr>
     (Message 10 (Envelope (chatMsg (JStr ''hello'') (JStr ''AB12CD'') (JStr ''Alice'') (JStr ''m1''))))
     aliceAndBob \<and>
   appended aliceAndBob (step \<lparr>now = 5, genId = ''g5''\<rparr>
     (Message 10 (Envelope (chatMsg (JStr ''hello'') (JStr ''AB12CD'') (JStr ''Bob'') (JStr ''m1''))))
     aliceAndBob) =
     [(10, ChatMessage (JStr ''m1'') (JStr ''Alice'') ''hello'' 5),
      (20, ChatMessage (JStr ''m1'') (JStr ''Alice'') ''hello'' 5)]"
proof -
  let ?m = "chatMsg (JStr ''hello'') (JStr ''AB12CD'') (JStr ''Alice'') (JStr ''m1'')"
  let ?m' = "chatMsg (JStr ''hello'') (JStr ''AB12CD'') (JStr ''Bob'') (JStr ''m1'')"
  let ?e = "\<lparr>now = 5, genId = ''g5''\<rparr>"
  have h: "m_type ?m = JStr ''chat_message'' \<or> m_type ?m = JStr ''typing''"
    by (simp add: chatMsg_def)
  have u: "?m\<lparr>m_username := JStr ''Bob''\<rparr> = ?m'" by (simp add: chatMsg_def)
  from registered_username_in_broadcasts[OF h, of ?e 10 "JStr ''Bob''" aliceAndBob]
  have eq: "step ?e (Message 10 (Envelope ?m')) aliceAndBob = step ?e (Message 10 (Envelope ?m)) aliceAndBob"
    unfolding u by blast
  have "appended aliceAndBob (step ?e (Message 10 (Envelope ?m)) aliceAndBob) =
     [(10, ChatMessage (JStr ''m1'') (JStr ''Alice'') ''hello'' 5),
      (20, ChatMessage (JStr ''m1'') (JStr ''Alice'') ''hello'' 5)]"
    by (simp add: appended_def onMessage_def handleMessage_def handleChatMessage_def chatMsg_def
        noFields_def ab_clients1 trim_def isWhiteSpace_def js_or_def broadcastToRoom_eq ab_rooms
        recipients_def ab_ready Let_def)
  with h eq show ?thesis by simp
qed

section \<open>Claims about the client\<close>

text \<open>
  C8. Backoff. In every state the service can reach, the base delay is 1000 milliseconds
  and the budget is 5 attempts. When the socket closes with a code other than 1000 and
  this starts reconnect attempt \<open>n\<close>, with \<open>n\<close> between 1 and the budget, the timer that
  is scheduled has the delay \<open>1000 * 2 ^ (n - 1)\<close> milliseconds: the delay doubles up to
  the last attempt and no bound is applied.
\<close>

theorem reconnect_backoff_delay:
  assumes "client_reachable c" and "socket c \<noteq> None" and "code \<noteq> 1000"
    and "1 \<le> n" and "n \<le> maxReconnectAttempts c" and "reconnectAttempts c = n - 1"
  shows "reconnectDelay c = 1000 \<and> maxReconnectAttempts c = 5 \<and>
     reconnectAttempts (client_step (SocketClose code) c) = n \<and>
     reconnectTimers (client_step (SocketClose code) c) =
       reconnectTimers c @ [1000 * 2 ^ (n - 1)]"
proof -
  from client_reachable_constants[OF assms(1)]
  have k: "reconnectDelay c = 1000" "maxReconnectAttempts c = 5" by auto
  let ?c = "c\<lparr>socket := Some CLOSED\<rparr>"
  have lt: "reconnectAttempts ?c < maxReconnectAttempts ?c"
    using assms(4,5,6) by simp
  from handleClose_retry[OF assms(3) lt] k assms(2,4,6) show ?thesis by simp
qed

theorem reconnect_backoff_delay_witness:
  "client_reachable retryingClient \<and> socket retryingClient \<noteq> None \<and> (1006::nat) \<noteq> 1000 \<and>
   (1::nat) \<le> 2 \<and> 2 \<le> maxReconnectAttempts retryingClient \<and>
   reconnectAttempts retryingClient = 2 - 1 \<and>
   reconnectAttempts (client_step (SocketClose 1006) retryingClient) = 2 \<and>
   reconnectTimers (client_step (SocketClose 1006) retryingClient) = [1000, 2000]"
proof -
  have h2: "socket retryingClient \<noteq> None"
    by (simp add: retryingClient_def connectedClient_def client_defs)
  have h3: "(1006::nat) \<noteq> 1000" by simp
  have h4: "(1::nat) \<le> 2" by simp
  have h5: "2 \<le> maxReconnectAttempts retryingClient"
    by (simp add: retryingClient_def connectedClient_def client_defs)
  have h6: "reconnectAttempts retryingClient = 2 - 1"
    by (simp add: retryingClient_def connectedClient_def client_defs)
  have t: "reconnectTimers retryingClient = [1000]"
    by (simp add: retryingClient_def connectedClient_def client_defs)
  from reconnect_backoff_delay[OF rc_reachable h2 h3 h4 h5 h6]
  show ?thesis using rc_reachable h2 h5 h6 by (simp add: t)
qed

text \<open>
  C5. Reconnection. The claim asks that after an abnormal close the client re-establishes
  the connection and sends the join request again with the room code and name it
  remembers, and that it falls back to simulation once five attempts have failed. What
  the code does: a connected service whose socket closes with code 1006 counts one
  attempt and schedules the timer; when the timer fires, its callback writes a console
  line and nothing else. The socket stays closed, no \<^verbatim>\<open>join_room\<close> is sent again, and
  no further timer is pending. In any state, the callback leaves the socket, the
  connection flag and the frames sent as they were.
\<close>

theorem reconnect_does_not_rejoin:
  "isConnected connectedClient \<and> socket connectedClient = Some OPEN \<and>
   sentFrames connectedClient = [JoinRoomFrame (JStr ''AB12CD'') (JStr ''Alice'')] \<and>
   client_step ReconnectTimer (client_step (SocketClose 1006) connectedClient) =
     connectedClient\<lparr>socket := Some CLOSED, isConnected := False, reconnectAttempts := 1,
       heartbeatInterval := False, reconnectTimers := [],
       connectionEvents := [True, False],
       consoleLog := [''WebSocket connected'', ''WebSocket disconnected'',
                      ''Attempting to reconnect'', ''Reconnection attempt...'']\<rparr> \<and>
   sentFrames (client_step ReconnectTimer (client_step (SocketClose 1006) connectedClient)) =
     sentFrames connectedClient \<and>
   socket (client_step ReconnectTimer c) = socket c \<and>
   isConnected (client_step ReconnectTimer c) = isConnected c \<and>
   sentFrames (client_step ReconnectTimer c) = sentFrames c"
proof -
  have general: "socket (client_step ReconnectTimer c) = socket c \<and>
      isConnected (client_step ReconnectTimer c) = isConnected c \<and>
      sentFrames (client_step ReconnectTimer c) = sentFrames c"
    by (simp add: reconnectTimerFired_def Let_def split: list.split)
  have concrete: "isConnected connectedClient \<and> socket connectedClient = Some OPEN \<and>
   sentFrames connectedClient = [JoinRoomFrame (JStr ''AB12CD'') (JStr ''Alice'')] \<and>
   client_step ReconnectTimer (client_step (SocketClose 1006) connectedClient) =
     connectedClient\<lparr>socket := Some CLOSED, isConnected := False, reconnectAttempts := 1,
       heartbeatInterval := False, reconnectTimers := [],
       connectionEvents := [True, False],
       consoleLog := [''WebSocket connected'', ''WebSocket disconnected'',
                      ''Attempting to reconnect'', ''Reconnection attempt...'']\<rparr> \<and>
   sentFrames (client_step ReconnectTimer (client_step (SocketClose 1006) connectedClient)) =
     sentFrames connectedClient"
    by (simp add: connectedClient_def client_defs)
  from general concrete show ?thesis by blast
qed

end
